theory Spec2Isabelle
  imports Complex_Main
begin

section \<open>Cache-based group statistics and binned latitudinal correlations\<close>

text \<open>
  A shallow embedding of the Julia notebook cells \<^verbatim>\<open>Cache-based statistics\<close> and
  \<^verbatim>\<open>Latitudinal correlations\<close>: the functions \<^verbatim>\<open>_populate_caches!\<close> (generic and
  sparse method), \<^verbatim>\<open>_populate_caches_logged!\<close>, \<^verbatim>\<open>groupby_mean!\<close>,
  \<^verbatim>\<open>_fast_cor_binned\<close> and \<^verbatim>\<open>compute_latitudinal_abundance_cors\<close>.

  Conventions of the embedding.
  \<^item> A \<^verbatim>\<open>Float64\<close> is a value of \<open>f64\<close>: a real number, one of the two infinities, or
    NaN. Arithmetic on finite values is exact real arithmetic (rounding, overflow to
    infinity and the sign of zero are not modelled); the non-finite cases follow IEEE 754
    as Julia implements it.
  \<^item> A Julia \<^verbatim>\<open>Int\<close> is an \<open>int\<close>; the counts of this program stay far from the 64-bit
    bounds.
  \<^item> A Julia \<^verbatim>\<open>Vector\<close> is a list, read and written with 1-based indices through
    \<open>getindex\<close> and \<open>setindex\<close>; an index out of range is a \<open>BoundsError\<close>.
  \<^item> Every exception is a value \<open>Inl e\<close> of the result type \<open>error + 'a\<close>. The buffers
    a function mutates are passed in and returned; what they hold at the moment an
    exception leaves the function is not part of the model.
\<close>

subsection \<open>Errors\<close>

datatype error =
    BoundsError
  | ArgumentError
  | DomainError
  | DimensionMismatch
  | MethodError
  | DivideError
  | AssertionError
  | KeyError

subsection \<open>Float64 values\<close>

datatype f64 = Fin real | PInf | NInf | NaN

fun fadd :: "f64 \<Rightarrow> f64 \<Rightarrow> f64" where
  "fadd (Fin a) (Fin b) = Fin (a + b)"
| "fadd NaN _ = NaN"
| "fadd _ NaN = NaN"
| "fadd PInf NInf = NaN"
| "fadd NInf PInf = NaN"
| "fadd PInf _ = PInf"
| "fadd _ PInf = PInf"
| "fadd NInf _ = NInf"
| "fadd _ NInf = NInf"

fun fmul :: "f64 \<Rightarrow> f64 \<Rightarrow> f64" where
  "fmul (Fin a) (Fin b) = Fin (a * b)"
| "fmul NaN _ = NaN"
| "fmul _ NaN = NaN"
| "fmul PInf (Fin b) = (if 0 < b then PInf else if b < 0 then NInf else NaN)"
| "fmul NInf (Fin b) = (if 0 < b then NInf else if b < 0 then PInf else NaN)"
| "fmul (Fin a) PInf = (if 0 < a then PInf else if a < 0 then NInf else NaN)"
| "fmul (Fin a) NInf = (if 0 < a then NInf else if a < 0 then PInf else NaN)"
| "fmul PInf PInf = PInf"
| "fmul NInf NInf = PInf"
| "fmul PInf NInf = NInf"
| "fmul NInf PInf = NInf"

text \<open>Division; a zero divisor is the positive zero (an \<^verbatim>\<open>Int\<close> zero converted).\<close>

fun fdiv :: "f64 \<Rightarrow> f64 \<Rightarrow> f64" where
  "fdiv (Fin a) (Fin b) =
     (if b \<noteq> 0 then Fin (a / b)
      else if 0 < a then PInf else if a < 0 then NInf else NaN)"
| "fdiv NaN _ = NaN"
| "fdiv _ NaN = NaN"
| "fdiv (Fin a) PInf = Fin 0"
| "fdiv (Fin a) NInf = Fin 0"
| "fdiv PInf (Fin b) = (if 0 \<le> b then PInf else NInf)"
| "fdiv NInf (Fin b) = (if 0 \<le> b then NInf else PInf)"
| "fdiv PInf PInf = NaN"
| "fdiv PInf NInf = NaN"
| "fdiv NInf PInf = NaN"
| "fdiv NInf NInf = NaN"

text \<open>\<^verbatim>\<open>log10\<close> raises a \<^verbatim>\<open>DomainError\<close> on a negative argument.\<close>

fun flog10 :: "f64 \<Rightarrow> error + f64" where
  "flog10 (Fin x) =
     (if x < 0 then Inl DomainError
      else if x = 0 then Inr NInf
      else Inr (Fin (log 10 x)))"
| "flog10 PInf = Inr PInf"
| "flog10 NInf = Inl DomainError"
| "flog10 NaN = Inr NaN"

fun fmin :: "f64 \<Rightarrow> f64 \<Rightarrow> f64" where
  "fmin (Fin a) (Fin b) = Fin (min a b)"
| "fmin NaN _ = NaN"
| "fmin _ NaN = NaN"
| "fmin NInf _ = NInf"
| "fmin _ NInf = NInf"
| "fmin PInf y = y"
| "fmin x PInf = x"

definition iszero :: "f64 \<Rightarrow> bool" where
  "iszero x = (x = Fin 0)"

definition of_Int :: "int \<Rightarrow> f64" where
  "of_Int n = Fin (of_int n)"

text \<open>\<^verbatim>\<open>minimum\<close> of an empty collection raises an \<^verbatim>\<open>ArgumentError\<close>.\<close>

fun minimum :: "f64 list \<Rightarrow> error + f64" where
  "minimum [] = Inl ArgumentError"
| "minimum (x # xs) = Inr (foldl fmin x xs)"

subsection \<open>Vectors with 1-based indices\<close>

definition getindex :: "'a list \<Rightarrow> int \<Rightarrow> error + 'a" where
  "getindex xs i =
     (if 1 \<le> i \<and> i \<le> int (length xs) then Inr (xs ! nat (i - 1)) else Inl BoundsError)"

definition setindex :: "'a list \<Rightarrow> int \<Rightarrow> 'a \<Rightarrow> error + 'a list" where
  "setindex xs i v =
     (if 1 \<le> i \<and> i \<le> int (length xs) then Inr (xs[nat (i - 1) := v]) else Inl BoundsError)"

text \<open>
  The observation vector. Dispatch in the source is on its type: a \<^verbatim>\<open>SparseVector\<close>
  (or a column view of a \<^verbatim>\<open>SparseMatrixCSC\<close>) has its logical length, the indices of the
  stored entries (\<^verbatim>\<open>rowvals\<close>) and the stored values (\<^verbatim>\<open>nonzeros\<close>); anything else takes
  the generic methods.
\<close>

datatype vec = Dense "f64 list" | Sparse int "int list" "f64 list"

record caches =
  abunds_cache :: "f64 list"
  mean_cache :: "f64 list"
  sum_cache :: "f64 list"
  group_count_cache :: "int list"
  prev_cache :: "int list"

subsection \<open>Filling the caches\<close>

text \<open>
  The loop body shared by the two methods of \<^verbatim>\<open>_populate_caches!\<close>:
  \<^verbatim>\<open>sum_cache[group] += val; prev_cache[group] += 1\<close>.
\<close>

definition add_to_group :: "int \<Rightarrow> f64 \<Rightarrow> f64 list \<times> int list \<Rightarrow> error + (f64 list \<times> int list)" where
  "add_to_group grp val sp =
     (case getindex (fst sp) grp of
        Inl e \<Rightarrow> Inl e
      | Inr s \<Rightarrow>
          (case setindex (fst sp) grp (fadd s val) of
             Inl e \<Rightarrow> Inl e
           | Inr sum_cache' \<Rightarrow>
               (case getindex (snd sp) grp of
                  Inl e \<Rightarrow> Inl e
                | Inr p \<Rightarrow>
                    (case setindex (snd sp) grp (p + 1) of
                       Inl e \<Rightarrow> Inl e
                     | Inr prev_cache' \<Rightarrow> Inr (sum_cache', prev_cache')))))"

text \<open>
  Generic fallback: \<^verbatim>\<open>for i in 1:length(val_vec)\<close>, with \<open>i\<close> the index of the head of
  the remaining values. Every entry, zero or not, increments \<^verbatim>\<open>prev_cache\<close>.
\<close>

fun populate_caches_generic ::
  "int \<Rightarrow> f64 list \<Rightarrow> int list \<Rightarrow> f64 list \<times> int list \<Rightarrow> error + (f64 list \<times> int list)" where
  "populate_caches_generic i [] group_vec sp = Inr sp"
| "populate_caches_generic i (val # rest) group_vec sp =
     (case getindex group_vec i of
        Inl e \<Rightarrow> Inl e
      | Inr grp \<Rightarrow>
          (case add_to_group grp val sp of
             Inl e \<Rightarrow> Inl e
           | Inr sp' \<Rightarrow> populate_caches_generic (i + 1) rest group_vec sp'))"

text \<open>Sparse method: \<^verbatim>\<open>for (i, val) in zip(inds, vals)\<close>, the stored entries only.\<close>

fun populate_caches_sparse ::
  "(int \<times> f64) list \<Rightarrow> int list \<Rightarrow> f64 list \<times> int list \<Rightarrow> error + (f64 list \<times> int list)" where
  "populate_caches_sparse [] group_vec sp = Inr sp"
| "populate_caches_sparse ((i, val) # rest) group_vec sp =
     (case getindex group_vec i of
        Inl e \<Rightarrow> Inl e
      | Inr grp \<Rightarrow>
          (case add_to_group grp val sp of
             Inl e \<Rightarrow> Inl e
           | Inr sp' \<Rightarrow> populate_caches_sparse rest group_vec sp'))"

definition populate_caches ::
  "vec \<Rightarrow> int list \<Rightarrow> f64 list \<times> int list \<Rightarrow> error + (f64 list \<times> int list)" where
  "populate_caches val_vec group_vec sp =
     (case val_vec of
        Dense xs \<Rightarrow> populate_caches_generic 1 xs group_vec sp
      | Sparse n inds vals \<Rightarrow> populate_caches_sparse (zip inds vals) group_vec sp)"

text \<open>
  The logged method. First loop: \<^verbatim>\<open>sum_cache[group] += log10(val + pcount)\<close> reads
  \<^verbatim>\<open>sum_cache[group]\<close>, then evaluates the logarithm, then writes.
\<close>

fun logged_loop ::
  "f64 \<Rightarrow> (int \<times> f64) list \<Rightarrow> int list \<Rightarrow> f64 list \<times> int list \<Rightarrow> error + (f64 list \<times> int list)" where
  "logged_loop pcount [] group_vec sp = Inr sp"
| "logged_loop pcount ((i, val) # rest) group_vec sp =
     (case getindex group_vec i of
        Inl e \<Rightarrow> Inl e
      | Inr grp \<Rightarrow>
          (case getindex (fst sp) grp of
             Inl e \<Rightarrow> Inl e
           | Inr s \<Rightarrow>
               (case flog10 (fadd val pcount) of
                  Inl e \<Rightarrow> Inl e
                | Inr l \<Rightarrow>
                    (case add_to_group grp l sp of
                       Inl e \<Rightarrow> Inl e
                     | Inr sp' \<Rightarrow> logged_loop pcount rest group_vec sp'))))"

text \<open>
  Second loop, \<^verbatim>\<open>for i in 1:length(sum_cache)\<close>: the implicit zeros of group \<open>i\<close>
  are \<^verbatim>\<open>group_count_cache[i] - prev_cache[i]\<close>, and
  \<^verbatim>\<open>log10(pcount) * n_zeros\<close> is added to \<^verbatim>\<open>sum_cache[i]\<close>.
\<close>

fun zeros_loop ::
  "f64 \<Rightarrow> int list \<Rightarrow> int list \<Rightarrow> int list \<Rightarrow> f64 list \<Rightarrow> error + f64 list" where
  "zeros_loop pcount [] gcounts prevc sumc = Inr sumc"
| "zeros_loop pcount (i # rest) gcounts prevc sumc =
     (case getindex gcounts i of
        Inl e \<Rightarrow> Inl e
      | Inr gc \<Rightarrow>
          (case getindex prevc i of
             Inl e \<Rightarrow> Inl e
           | Inr p \<Rightarrow>
               (case flog10 pcount of
                  Inl e \<Rightarrow> Inl e
                | Inr l \<Rightarrow>
                    (case getindex sumc i of
                       Inl e \<Rightarrow> Inl e
                     | Inr s \<Rightarrow>
                         (case setindex sumc i (fadd s (fmul l (of_Int (gc - p)))) of
                            Inl e \<Rightarrow> Inl e
                          | Inr sum_cache' \<Rightarrow>
                              zeros_loop pcount rest gcounts prevc sum_cache')))))"

text \<open>
  \<^verbatim>\<open>_populate_caches_logged!\<close> has one method, for sparse vectors; a call with any other
  vector is a \<^verbatim>\<open>MethodError\<close>.
\<close>

definition populate_caches_logged ::
  "vec \<Rightarrow> int list \<Rightarrow> f64 list \<times> int list \<Rightarrow> int list \<Rightarrow> error + (f64 list \<times> int list)" where
  "populate_caches_logged val_vec group_vec sp gcounts =
     (case val_vec of
        Dense xs \<Rightarrow> Inl MethodError
      | Sparse n inds vals \<Rightarrow>
          (case minimum vals of
             Inl e \<Rightarrow> Inl e
           | Inr m \<Rightarrow>
               (let pcount = fdiv m (Fin 10) in
                case logged_loop pcount (zip inds vals) group_vec sp of
                  Inl e \<Rightarrow> Inl e
                | Inr sp' \<Rightarrow>
                    (case zeros_loop pcount (map int [1..<Suc (length (fst sp'))])
                            gcounts (snd sp') (fst sp') of
                       Inl e \<Rightarrow> Inl e
                     | Inr sum_cache' \<Rightarrow> Inr (sum_cache', snd sp')))))"

subsection \<open>The aggregation\<close>

text \<open>
  \<^verbatim>\<open>mean_cache .= sum_cache ./ group_count_cache\<close> is one fused broadcast into
  \<^verbatim>\<open>mean_cache\<close>: each argument has the length of the destination or length one (and is
  then repeated), anything else is a \<^verbatim>\<open>DimensionMismatch\<close>.
\<close>

definition bcast :: "nat \<Rightarrow> 'a list \<Rightarrow> error + 'a list" where
  "bcast n xs =
     (if length xs = n then Inr xs
      else if length xs = 1 then Inr (replicate n (hd xs))
      else Inl DimensionMismatch)"

definition broadcast_div :: "nat \<Rightarrow> f64 list \<Rightarrow> int list \<Rightarrow> error + f64 list" where
  "broadcast_div n sumc gcounts =
     (case bcast n sumc of
        Inl e \<Rightarrow> Inl e
      | Inr ss \<Rightarrow>
          (case bcast n gcounts of
             Inl e \<Rightarrow> Inl e
           | Inr gs \<Rightarrow> Inr (map2 (\<lambda>s g. fdiv s (of_Int g)) ss gs)))"

text \<open>
  \<^verbatim>\<open>groupby_mean!\<close>. The three \<^verbatim>\<open>fill!\<close> calls zero the mean, sum and count arrays;
  the zeroed means are overwritten by the broadcast at the end. The group sizes are
  only read.
\<close>

definition groupby_mean :: "vec \<Rightarrow> int list \<Rightarrow> caches \<Rightarrow> bool \<Rightarrow> error + caches" where
  "groupby_mean val_vec group_vec cs log_vals =
     (let sum0 = replicate (length (sum_cache cs)) (Fin 0);
          prev0 = replicate (length (prev_cache cs)) (0 :: int)
      in case (if log_vals
               then populate_caches_logged val_vec group_vec (sum0, prev0) (group_count_cache cs)
               else populate_caches val_vec group_vec (sum0, prev0)) of
           Inl e \<Rightarrow> Inl e
         | Inr sp \<Rightarrow>
             (case broadcast_div (length (mean_cache cs)) (fst sp) (group_count_cache cs) of
                Inl e \<Rightarrow> Inl e
              | Inr means \<Rightarrow>
                  Inr (cs\<lparr>mean_cache := means, sum_cache := fst sp, prev_cache := snd sp\<rparr>)))"

subsection \<open>Binned correlation\<close>

record cor_result =
  cor :: f64
  n_bins_obs :: int
  prev :: int

text \<open>
  \<^verbatim>\<open>all(iszero, val_vec)\<close>: every entry of a dense vector, every stored entry of a sparse
  one (the entries that are not stored are zero).
\<close>

definition all_iszero :: "vec \<Rightarrow> bool" where
  "all_iszero val_vec =
     (case val_vec of
        Dense xs \<Rightarrow> list_all iszero xs
      | Sparse n inds vals \<Rightarrow> list_all iszero (map snd (zip inds vals)))"

text \<open>
  \<^verbatim>\<open>sum(!iszero, prev_cache)\<close>: a reduction with a mapped function, which raises an
  \<^verbatim>\<open>ArgumentError\<close> on an empty vector.
\<close>

definition count_nonzero :: "int list \<Rightarrow> error + int" where
  "count_nonzero xs =
     (if xs = [] then Inl ArgumentError else Inr (int (length (filter (\<lambda>x. x \<noteq> 0) xs))))"

text \<open>\<^verbatim>\<open>log10.(mean_cache .+ pcount)\<close>, element by element.\<close>

fun log10_all :: "f64 \<Rightarrow> f64 list \<Rightarrow> error + f64 list" where
  "log10_all pcount [] = Inr []"
| "log10_all pcount (m # ms) =
     (case flog10 (fadd m pcount) of
        Inl e \<Rightarrow> Inl e
      | Inr l \<Rightarrow>
          (case log10_all pcount ms of
             Inl e \<Rightarrow> Inl e
           | Inr ls \<Rightarrow> Inr (l # ls)))"

text \<open>The \<^verbatim>\<open>if log_means\<close> block of \<^verbatim>\<open>_fast_cor_binned\<close>.\<close>

definition log_means_block :: "f64 list \<Rightarrow> error + f64 list" where
  "log_means_block means =
     (case (if list_ex iszero means
            then (case minimum (filter (\<lambda>m. \<not> iszero m) means) of
                    Inl e \<Rightarrow> Inl e
                  | Inr m \<Rightarrow> Inr (fdiv m (Fin 10)))
            else Inr (Fin 0)) of
        Inl e \<Rightarrow> Inl e
      | Inr pcount \<Rightarrow> log10_all pcount means)"

text \<open>
  \<^verbatim>\<open>_fast_cor_binned\<close>. The correlation \<^verbatim>\<open>Statistics.cor\<close> is a library function and a
  parameter \<open>corf\<close> of the model.
\<close>

definition fast_cor_binned ::
  "(f64 list \<Rightarrow> f64 list \<Rightarrow> error + f64) \<Rightarrow> vec \<Rightarrow> int list \<Rightarrow> f64 list \<Rightarrow> caches \<Rightarrow> bool
     \<Rightarrow> error + (cor_result \<times> caches)" where
  "fast_cor_binned corf val_vec v2_binned bins_srt cs log_means =
     (if all_iszero val_vec
      then Inr (\<lparr>cor = NaN, n_bins_obs = 0, prev = 0\<rparr>, cs)
      else
        (case groupby_mean val_vec v2_binned cs False of
           Inl e \<Rightarrow> Inl e
         | Inr cs1 \<Rightarrow>
             (case count_nonzero (prev_cache cs1) of
                Inl e \<Rightarrow> Inl e
              | Inr n \<Rightarrow>
                  (case (if log_means then log_means_block (mean_cache cs1)
                         else Inr (mean_cache cs1)) of
                     Inl e \<Rightarrow> Inl e
                   | Inr means \<Rightarrow>
                       (case corf means bins_srt of
                          Inl e \<Rightarrow> Inl e
                        | Inr stat \<Rightarrow>
                            Inr (\<lparr>cor = stat, n_bins_obs = n,
                                   prev = sum_list (prev_cache cs1)\<rparr>,
                                 cs1\<lparr>mean_cache := means\<rparr>))))))"

subsection \<open>Latitudinal correlations of all OTUs\<close>

text \<open>
  The keyed inputs: the OTU matrix with its sample keys (rows) and one column per OTU
  (each a dense vector, or a sparse column view), and the binned latitudes (finite
  reals) with their sample keys. A data frame is the list of its rows; the row of the
  result table carries the p-value columns in addition.
\<close>

record ('s, 'o) otu_table =
  sample_keys :: "'s list"
  otu_cols :: "('o \<times> vec) list"

record 's lat_vector =
  lat_keys :: "'s list"
  lat_vals :: "real list"

record 'o cor_row = cor_result +
  oid :: 'o
  n_obs :: int

record 'o test_row = "'o cor_row" +
  pval :: f64
  pval_adj :: "f64 option"

text \<open>Integer \<^verbatim>\<open>div\<close> rounds towards zero and raises on a zero divisor.\<close>

definition jl_div :: "int \<Rightarrow> int \<Rightarrow> error + int" where
  "jl_div a b = (if b = 0 then Inl DivideError else Inr (sgn a * sgn b * (\<bar>a\<bar> div \<bar>b\<bar>)))"

definition n_bins_obs_min :: "int \<Rightarrow> int \<Rightarrow> error + int" where
  "n_bins_obs_min n_bins bins_obs_min_factor =
     (if bins_obs_min_factor \<noteq> - 1 then jl_div n_bins bins_obs_min_factor else Inr 0)"

text \<open>\<^verbatim>\<open>Dict(bin=>i for (i, bin) in enumerate(bins_srt))\<close>.\<close>

definition make_indmap :: "real list \<Rightarrow> (real \<rightharpoonup> int)" where
  "make_indmap bins_srt =
     fold (\<lambda>(i, bin) m. m(bin \<mapsto> i)) (zip (map int [1..<Suc (length bins_srt)]) bins_srt) Map.empty"

fun lookup_all :: "(real \<rightharpoonup> int) \<Rightarrow> real list \<Rightarrow> error + int list" where
  "lookup_all indmap [] = Inr []"
| "lookup_all indmap (x # xs) =
     (case indmap x of
        None \<Rightarrow> Inl KeyError
      | Some i \<Rightarrow>
          (case lookup_all indmap xs of
             Inl e \<Rightarrow> Inl e
           | Inr is \<Rightarrow> Inr (i # is)))"

text \<open>\<^verbatim>\<open>for bin_ind in lats_binned_indmap: group_count_cache[bin_ind] += 1\<close>.\<close>

fun count_groups :: "int list \<Rightarrow> int list \<Rightarrow> error + int list" where
  "count_groups [] gcounts = Inr gcounts"
| "count_groups (bin_ind # rest) gcounts =
     (case getindex gcounts bin_ind of
        Inl e \<Rightarrow> Inl e
      | Inr c \<Rightarrow>
          (case setindex gcounts bin_ind (c + 1) of
             Inl e \<Rightarrow> Inl e
           | Inr gcounts' \<Rightarrow> count_groups rest gcounts'))"

text \<open>
  The \<^verbatim>\<open>map\<close> over the OTU columns; the caches are shared by all calls of
  \<^verbatim>\<open>_fast_cor_binned\<close>, in column order.
\<close>

fun cor_rows ::
  "(f64 list \<Rightarrow> f64 list \<Rightarrow> error + f64) \<Rightarrow> ('o \<times> vec) list \<Rightarrow> int list \<Rightarrow> f64 list \<Rightarrow> int
     \<Rightarrow> caches \<Rightarrow> error + 'o cor_row list" where
  "cor_rows corf [] lats_binned_indmap bins_srt n_bins cs = Inr []"
| "cor_rows corf ((k, col) # rest) lats_binned_indmap bins_srt n_bins cs =
     (case fast_cor_binned corf col lats_binned_indmap bins_srt cs True of
        Inl e \<Rightarrow> Inl e
      | Inr (r, cs') \<Rightarrow>
          (case cor_rows corf rest lats_binned_indmap bins_srt n_bins cs' of
             Inl e \<Rightarrow> Inl e
           | Inr rs \<Rightarrow>
               Inr (\<lparr>cor = cor r, n_bins_obs = n_bins_obs r, prev = prev r,
                      oid = k, n_obs = n_bins\<rparr> # rs)))"

text \<open>
  Everything up to \<^verbatim>\<open>cor_df = DataFrame(cor_res)\<close>: the assertions, the sorted distinct
  bins, the index map, the fresh caches with the per-bin sample counts, and one row
  per OTU.
\<close>

definition cor_table ::
  "(f64 list \<Rightarrow> f64 list \<Rightarrow> error + f64) \<Rightarrow> ('s, 'o) otu_table \<Rightarrow> 's lat_vector
     \<Rightarrow> error + 'o cor_row list" where
  "cor_table corf otu_matn lats_binned =
     (if sample_keys otu_matn \<noteq> lat_keys lats_binned then Inl AssertionError
      else if \<not> list_all (\<lambda>x. 0 \<le> x) (lat_vals lats_binned) then Inl AssertionError
      else
        (let n_samp = length (sample_keys otu_matn);
             bins_srt = sort (remdups (lat_vals lats_binned));
             n_bins = length bins_srt;
             indmap = make_indmap bins_srt
         in case lookup_all indmap (lat_vals lats_binned) of
              Inl e \<Rightarrow> Inl e
            | Inr lats_binned_indmap \<Rightarrow>
                (case count_groups lats_binned_indmap (replicate n_bins 0) of
                   Inl e \<Rightarrow> Inl e
                 | Inr gcounts \<Rightarrow>
                     cor_rows corf (otu_cols otu_matn) lats_binned_indmap (map Fin bins_srt)
                       (int n_bins)
                       \<lparr>abunds_cache = replicate n_samp (Fin 0),
                        mean_cache = replicate n_bins (Fin 0),
                        sum_cache = replicate n_bins (Fin 0),
                        group_count_cache = gcounts,
                        prev_cache = replicate n_bins 0\<rparr>)))"

text \<open>The filter mask of one row: \<^verbatim>\<open>(prev < prev_min) | (n_bins_obs < n_bins_obs_min)\<close>.\<close>

definition filt_mask :: "int \<Rightarrow> int \<Rightarrow> 'o cor_row \<Rightarrow> bool" where
  "filt_mask prev_min thr r = (prev r < prev_min \<or> n_bins_obs r < thr)"

definition with_pvals :: "'o cor_row \<Rightarrow> f64 \<Rightarrow> f64 option \<Rightarrow> 'o test_row" where
  "with_pvals r p pa =
     \<lparr>cor = cor r, n_bins_obs = n_bins_obs r, prev = prev r, oid = oid r, n_obs = n_obs r,
      pval = p, pval_adj = pa\<rparr>"

definition row_of :: "'o test_row \<Rightarrow> 'o cor_row" where
  "row_of t = \<lparr>cor = cor t, n_bins_obs = n_bins_obs t, prev = prev t, oid = oid t, n_obs = n_obs t\<rparr>"

text \<open>
  \<^verbatim>\<open>compute_latitudinal_abundance_cors\<close>. The p-value of a correlation
  (\<^verbatim>\<open>FlashWeave.fz_pval\<close>) and the Benjamini-Hochberg adjustment
  (\<^verbatim>\<open>MultipleTesting.adjust\<close>) are library functions, the parameters \<open>fz_pval\<close> and
  \<open>adjust\<close>; a column of adjusted values of the wrong length cannot be stored in the
  data frame. The result is the pair \<^verbatim>\<open>(test_df, unrel_df)\<close>, a table being the list of
  its rows.
\<close>

definition compute_latitudinal_abundance_cors ::
  "(f64 list \<Rightarrow> f64 list \<Rightarrow> error + f64) \<Rightarrow> (f64 \<Rightarrow> int \<Rightarrow> int \<Rightarrow> f64) \<Rightarrow> (f64 list \<Rightarrow> f64 list)
     \<Rightarrow> ('s, 'o) otu_table \<Rightarrow> 's lat_vector \<Rightarrow> int \<Rightarrow> int \<Rightarrow> bool
     \<Rightarrow> error + ('o test_row list \<times> 'o cor_row list)" where
  "compute_latitudinal_abundance_cors corf fz_pval adjust otu_matn lats_binned
       prev_min bins_obs_min_factor do_FDR =
     (if sample_keys otu_matn \<noteq> lat_keys lats_binned then Inl AssertionError
      else if \<not> list_all (\<lambda>x. 0 \<le> x) (lat_vals lats_binned) then Inl AssertionError
      else
        (case n_bins_obs_min (int (length (sort (remdups (lat_vals lats_binned)))))
                bins_obs_min_factor of
           Inl e \<Rightarrow> Inl e
         | Inr thr \<Rightarrow>
             (case cor_table corf otu_matn lats_binned of
                Inl e \<Rightarrow> Inl e
              | Inr cor_df \<Rightarrow>
                  (let rm_cor_df = filter (filt_mask prev_min thr) cor_df;
                       kept = filter (\<lambda>r. \<not> filt_mask prev_min thr r) cor_df;
                       pvals = map (\<lambda>x. fz_pval (cor x) (n_obs x) 0) kept
                   in if do_FDR
                      then (if length (adjust pvals) \<noteq> length kept then Inl ArgumentError
                            else Inr (map (\<lambda>(r, p, pa). with_pvals r p (Some pa))
                                        (zip kept (zip pvals (adjust pvals))),
                                      rm_cor_df))
                      else Inr (map (\<lambda>(r, p). with_pvals r p None) (zip kept pvals),
                                rm_cor_df)))))"

subsection \<open>Quantities named by the specification\<close>

text \<open>
  The values a vector contributes: every entry of a dense vector, the stored entries of
  a sparse one (the others are zero).
\<close>

definition input_values :: "vec \<Rightarrow> f64 list" where
  "input_values val_vec =
     (case val_vec of Dense xs \<Rightarrow> xs | Sparse n inds vals \<Rightarrow> map snd (zip inds vals))"

text \<open>
  The sparse representation of a dense vector that stores exactly its non-zero entries,
  each with its 1-based index.
\<close>

fun pairs_from :: "int \<Rightarrow> 'a list \<Rightarrow> (int \<times> 'a) list" where
  "pairs_from i [] = []"
| "pairs_from i (x # xs) = (i, x) # pairs_from (i + 1) xs"

definition sparse_of :: "f64 list \<Rightarrow> vec" where
  "sparse_of xs =
     (let nz = filter (\<lambda>(i, x). \<not> iszero x) (pairs_from 1 xs)
      in Sparse (int (length xs)) (map fst nz) (map snd nz))"

text \<open>The group of the sample with (valid) index \<open>i\<close>, and the group ids \<open>1..G\<close>.\<close>

definition group_of :: "int list \<Rightarrow> int \<Rightarrow> int" where
  "group_of group_vec i = group_vec ! nat (i - 1)"

definition group_ids :: "nat \<Rightarrow> int list" where
  "group_ids G = map int [1..<Suc G]"

text \<open>
  The log-transform law in the words of the specification, for a sparse vector with
  the stored indices \<open>inds\<close> and the stored (real) values \<open>rs\<close>: the pseudo-count is a
  tenth of the smallest stored value; the count of a group is the number of its stored
  samples; the sum of a group is \<open>log10 (value + p)\<close> over its stored samples, plus
  \<open>log10 p\<close> times the number of its samples that are not stored (group size minus
  count).
\<close>

definition spec_pcount :: "real list \<Rightarrow> real" where
  "spec_pcount rs = Min (set rs) / 10"

definition spec_count :: "int list \<Rightarrow> int list \<Rightarrow> int \<Rightarrow> int" where
  "spec_count inds group_vec g = int (length (filter (\<lambda>i. group_of group_vec i = g) inds))"

definition spec_log_sum :: "int list \<Rightarrow> real list \<Rightarrow> int list \<Rightarrow> int list \<Rightarrow> int \<Rightarrow> real" where
  "spec_log_sum inds rs group_vec gcounts g =
     (\<Sum>(i, r) \<leftarrow> zip inds rs. if group_of group_vec i = g then log 10 (r + spec_pcount rs) else 0)
     + log 10 (spec_pcount rs) * of_int (gcounts ! nat (g - 1) - spec_count inds group_vec g)"

text \<open>
  The pseudo-count of the means in the words of the specification: a tenth of the
  smallest non-zero mean when some mean is zero, and zero when no mean is.
\<close>

definition spec_mean_pcount :: "real list \<Rightarrow> real" where
  "spec_mean_pcount ms = (if 0 \<in> set ms then Min (set (filter (\<lambda>m. m \<noteq> 0) ms)) / 10 else 0)"

section \<open>Properties\<close>

subsection \<open>The all-zero short circuit\<close>

text \<open>
  C4. For an input vector whose entries are all exactly zero, \<^verbatim>\<open>_fast_cor_binned\<close>
  returns the record with correlation NaN, zero observed bins and zero prevalence; it
  raises nothing, and the caches it was given come back as they were, whatever they
  hold (they are neither read nor written).
\<close>

theorem all_zero_short_circuit:
  "all_iszero val_vec \<Longrightarrow>
     fast_cor_binned corf val_vec v2_binned bins_srt cs log_means =
       Inr (\<lparr>cor = NaN, n_bins_obs = 0, prev = 0\<rparr>, cs)"
  by (simp add: fast_cor_binned_def)

theorem all_zero_short_circuit_witness:
  "all_iszero (Sparse 3 [] []) \<and> all_iszero (Dense [Fin 0, Fin 0]) \<and>
   fast_cor_binned (\<lambda>ms bs. Inl DimensionMismatch) (Dense [Fin 0, Fin 0]) [7, 9] [Fin 1]
       \<lparr>abunds_cache = [], mean_cache = [NaN], sum_cache = [Fin 5],
        group_count_cache = [0], prev_cache = [3]\<rparr> True =
     Inr (\<lparr>cor = NaN, n_bins_obs = 0, prev = 0\<rparr>,
          \<lparr>abunds_cache = [], mean_cache = [NaN], sum_cache = [Fin 5],
           group_count_cache = [0], prev_cache = [3]\<rparr>)"
proof -
  have z: "all_iszero (Dense [Fin 0, Fin 0])"
    by (simp add: all_iszero_def iszero_def)
  have s: "all_iszero (Sparse 3 [] [])"
    by (simp add: all_iszero_def)
  show ?thesis
    using s z all_zero_short_circuit [OF z] by simp
qed

subsection \<open>Idempotence of the aggregation\<close>

text \<open>The loops update the caches in place: no vector changes its length.\<close>

lemma add_to_group_length:
  "add_to_group grp val sp = Inr sp' \<Longrightarrow>
     length (fst sp') = length (fst sp) \<and> length (snd sp') = length (snd sp)"
  by (auto simp: add_to_group_def getindex_def setindex_def split: if_splits)

lemma populate_caches_generic_length:
  "populate_caches_generic i xs group_vec sp = Inr sp' \<Longrightarrow>
     length (fst sp') = length (fst sp) \<and> length (snd sp') = length (snd sp)"
proof (induction xs arbitrary: i sp)
  case Nil
  then show ?case by simp
next
  case (Cons x xs)
  then show ?case
    by (fastforce split: sum.splits dest: add_to_group_length)
qed

lemma populate_caches_sparse_length:
  "populate_caches_sparse es group_vec sp = Inr sp' \<Longrightarrow>
     length (fst sp') = length (fst sp) \<and> length (snd sp') = length (snd sp)"
proof (induction es arbitrary: sp)
  case Nil
  then show ?case by simp
next
  case (Cons e es)
  then show ?case
    by (cases e) (fastforce split: sum.splits dest: add_to_group_length)
qed

lemma logged_loop_length:
  "logged_loop pcount es group_vec sp = Inr sp' \<Longrightarrow>
     length (fst sp') = length (fst sp) \<and> length (snd sp') = length (snd sp)"
proof (induction es arbitrary: sp)
  case Nil
  then show ?case by simp
next
  case (Cons e es)
  then show ?case
    by (cases e) (fastforce split: sum.splits dest: add_to_group_length)
qed

lemma zeros_loop_length:
  "zeros_loop pcount is gcounts prevc sumc = Inr sumc' \<Longrightarrow> length sumc' = length sumc"
proof (induction "is" arbitrary: sumc)
  case Nil
  then show ?case by simp
next
  case (Cons i "is")
  then show ?case
    by (fastforce simp: setindex_def split: sum.splits if_splits)
qed

lemma populate_caches_length:
  "populate_caches val_vec group_vec sp = Inr sp' \<Longrightarrow>
     length (fst sp') = length (fst sp) \<and> length (snd sp') = length (snd sp)"
  by (cases val_vec)
     (auto simp: populate_caches_def dest: populate_caches_generic_length populate_caches_sparse_length)

lemma populate_caches_logged_length:
  assumes r: "populate_caches_logged val_vec group_vec sp gcounts = Inr sp'"
  shows "length (fst sp') = length (fst sp) \<and> length (snd sp') = length (snd sp)"
proof (cases val_vec)
  case (Dense xs)
  with r show ?thesis by (simp add: populate_caches_logged_def)
next
  case (Sparse n inds vals)
  from r Sparse obtain m where m: "minimum vals = Inr m"
    by (auto simp: populate_caches_logged_def split: sum.splits)
  from r Sparse m obtain sp1 where
    l: "logged_loop (fdiv m (Fin 10)) (zip inds vals) group_vec sp = Inr sp1"
    by (auto simp: populate_caches_logged_def Let_def split: sum.splits)
  from r Sparse m l obtain s2 where
    z: "zeros_loop (fdiv m (Fin 10)) (map int [1..<Suc (length (fst sp1))]) gcounts (snd sp1) (fst sp1) = Inr s2"
    and sp': "sp' = (s2, snd sp1)"
    by (auto simp: populate_caches_logged_def Let_def simp del: upt_Suc split: sum.splits)
  show ?thesis
    using logged_loop_length [OF l] zeros_loop_length [OF z] sp' by simp
qed

lemma bcast_length: "bcast n xs = Inr ys \<Longrightarrow> length ys = n"
  by (auto simp: bcast_def split: if_splits)

lemma broadcast_div_length: "broadcast_div n sumc gcounts = Inr ms \<Longrightarrow> length ms = n"
proof -
  assume r: "broadcast_div n sumc gcounts = Inr ms"
  then obtain ss gs where ss: "bcast n sumc = Inr ss" and gs: "bcast n gcounts = Inr gs"
    and ms: "ms = map2 (\<lambda>s g. fdiv s (of_Int g)) ss gs"
    by (auto simp: broadcast_div_def split: sum.splits)
  show ?thesis
    using bcast_length [OF ss] bcast_length [OF gs] ms by simp
qed

lemma groupby_mean_lengths:
  assumes "groupby_mean val_vec group_vec cs log_vals = Inr cs'"
  shows "length (mean_cache cs') = length (mean_cache cs)"
    and "length (sum_cache cs') = length (sum_cache cs)"
    and "length (prev_cache cs') = length (prev_cache cs)"
    and "group_count_cache cs' = group_count_cache cs"
    and "abunds_cache cs' = abunds_cache cs"
  using assms
  by (auto simp: groupby_mean_def Let_def split: sum.splits if_splits
           dest: populate_caches_length populate_caches_logged_length broadcast_div_length)

lemma groupby_mean_shape:
  assumes "length (mean_cache cs2) = length (mean_cache cs)"
      and "length (sum_cache cs2) = length (sum_cache cs)"
      and "length (prev_cache cs2) = length (prev_cache cs)"
      and "group_count_cache cs2 = group_count_cache cs"
      and "groupby_mean val_vec group_vec cs log_vals = Inr cs'"
  shows "groupby_mean val_vec group_vec cs2 log_vals = Inr (cs'\<lparr>abunds_cache := abunds_cache cs2\<rparr>)"
  using assms
  by (auto simp: groupby_mean_def Let_def split: sum.splits if_splits)

text \<open>
  C8. The outcome of \<^verbatim>\<open>groupby_mean!\<close> does not depend on what the sum, count and mean
  arrays held before the call: from any other caches \<open>cs2\<close> of the same lengths and with
  the same group sizes, a completed call yields the same sum, count and mean arrays
  (they are overwritten from zero). In particular a second call on the caches the first
  one returned gives them back unchanged, and no call modifies the group sizes.
\<close>

theorem groupby_mean_no_leakage:
  assumes "length (mean_cache cs2) = length (mean_cache cs)"
      and "length (sum_cache cs2) = length (sum_cache cs)"
      and "length (prev_cache cs2) = length (prev_cache cs)"
      and "group_count_cache cs2 = group_count_cache cs"
      and "groupby_mean val_vec group_vec cs log_vals = Inr cs'"
  shows "groupby_mean val_vec group_vec cs2 log_vals = Inr (cs'\<lparr>abunds_cache := abunds_cache cs2\<rparr>) \<and>
         groupby_mean val_vec group_vec cs' log_vals = Inr cs' \<and>
         group_count_cache cs' = group_count_cache cs"
proof -
  note l = groupby_mean_lengths [OF assms(5)]
  have "groupby_mean val_vec group_vec cs' log_vals = Inr (cs'\<lparr>abunds_cache := abunds_cache cs'\<rparr>)"
    using groupby_mean_shape [OF l(1) l(2) l(3) l(4) assms(5)] .
  then show ?thesis
    using groupby_mean_shape [OF assms] l(4) by simp
qed

theorem groupby_mean_no_leakage_witness:
  "groupby_mean (Dense [Fin 1, Fin 3]) [1, 2]
       \<lparr>abunds_cache = [], mean_cache = [NaN, Fin 7], sum_cache = [Fin 9, PInf],
        group_count_cache = [1, 1], prev_cache = [5, 6]\<rparr> False =
     Inr \<lparr>abunds_cache = [], mean_cache = [Fin 1, Fin 3], sum_cache = [Fin 1, Fin 3],
          group_count_cache = [1, 1], prev_cache = [1, 1]\<rparr> \<and>
   groupby_mean (Dense [Fin 1, Fin 3]) [1, 2]
       \<lparr>abunds_cache = [Fin 2], mean_cache = [Fin 0, Fin 0], sum_cache = [Fin 0, Fin 0],
        group_count_cache = [1, 1], prev_cache = [0, 0]\<rparr> False =
     Inr \<lparr>abunds_cache = [Fin 2], mean_cache = [Fin 1, Fin 3], sum_cache = [Fin 1, Fin 3],
          group_count_cache = [1, 1], prev_cache = [1, 1]\<rparr> \<and>
   groupby_mean (Dense [Fin 1, Fin 3]) [1, 2]
       \<lparr>abunds_cache = [], mean_cache = [Fin 1, Fin 3], sum_cache = [Fin 1, Fin 3],
        group_count_cache = [1, 1], prev_cache = [1, 1]\<rparr> False =
     Inr \<lparr>abunds_cache = [], mean_cache = [Fin 1, Fin 3], sum_cache = [Fin 1, Fin 3],
          group_count_cache = [1, 1], prev_cache = [1, 1]\<rparr>"
proof -
  let ?cs = "\<lparr>abunds_cache = [], mean_cache = [NaN, Fin 7], sum_cache = [Fin 9, PInf],
        group_count_cache = [1, 1], prev_cache = [5, 6]\<rparr>"
  let ?cs2 = "\<lparr>abunds_cache = [Fin 2], mean_cache = [Fin 0, Fin 0], sum_cache = [Fin 0, Fin 0],
        group_count_cache = [1, 1], prev_cache = [0, 0]\<rparr>"
  let ?cs' = "\<lparr>abunds_cache = [], mean_cache = [Fin 1, Fin 3], sum_cache = [Fin 1, Fin 3],
          group_count_cache = [1, 1], prev_cache = [1, 1]\<rparr>"
  have run: "groupby_mean (Dense [Fin 1, Fin 3]) [1, 2] ?cs False = Inr ?cs'"
    by (simp add: groupby_mean_def populate_caches_def add_to_group_def getindex_def
        setindex_def broadcast_div_def bcast_def of_Int_def)
  show ?thesis
    using run groupby_mean_no_leakage [of ?cs2 ?cs "Dense [Fin 1, Fin 3]" "[1, 2]" False ?cs']
    by simp
qed

subsection \<open>Means\<close>

lemma sum_list_update_add:
  fixes xs :: "'a :: comm_monoid_add list"
  shows "k < length xs \<Longrightarrow> sum_list (xs[k := xs ! k + v]) = sum_list xs + v"
proof (induction xs arbitrary: k)
  case Nil
  then show ?case by simp
next
  case (Cons x xs)
  then show ?case by (cases k) (simp_all add: ac_simps)
qed

lemma bcast_same: "length xs = n \<Longrightarrow> bcast n xs = Inr xs"
  by (simp add: bcast_def)

text \<open>
  After a completed call of \<^verbatim>\<open>groupby_mean!\<close> without log transform, on caches whose
  arrays have one length, every mean is the one division of the sum of its group by the
  group size. (That the means weighted by the group sizes add up to the sum of the
  input values is a statement about rounding, which the embedding does not model; it
  is not stated here.)
\<close>

lemma groupby_mean_mean_is_quotient:
  assumes r: "groupby_mean val_vec group_vec cs False = Inr cs'"
    and lm: "length (mean_cache cs) = length (sum_cache cs)"
    and lg: "length (group_count_cache cs) = length (sum_cache cs)"
  shows "mean_cache cs' =
           map2 (\<lambda>s g. fdiv s (of_Int g)) (sum_cache cs') (group_count_cache cs')"
proof -
  from r obtain sp where
    p: "populate_caches val_vec group_vec
           (replicate (length (sum_cache cs)) (Fin 0), replicate (length (prev_cache cs)) 0) = Inr sp"
    by (auto simp: groupby_mean_def Let_def split: sum.splits)
  from r p obtain ms where
    b: "broadcast_div (length (mean_cache cs)) (fst sp) (group_count_cache cs) = Inr ms"
    and c: "cs' = cs\<lparr>mean_cache := ms, sum_cache := fst sp, prev_cache := snd sp\<rparr>"
    by (auto simp: groupby_mean_def Let_def split: sum.splits)
  from populate_caches_length [OF p] have l: "length (fst sp) = length (sum_cache cs)"
    by simp
  from b l lm lg have "ms = map2 (\<lambda>s g. fdiv s (of_Int g)) (fst sp) (group_count_cache cs)"
    by (simp add: broadcast_div_def bcast_same)
  with c show ?thesis
    by simp
qed

subsection \<open>The log-transform path\<close>

text \<open>On finite values the loops of \<^verbatim>\<open>_populate_caches_logged!\<close> compute with reals.\<close>

lemma foldl_fmin_Fin: "foldl fmin (Fin a) (map Fin rs) = Fin (Min (set (a # rs)))"
proof (induction rs arbitrary: a)
  case Nil
  then show ?case by simp
next
  case (Cons r rs)
  have "Min (set (min a r # rs)) = Min (set (a # r # rs))"
    by (cases "set rs = {}") (simp_all add: min.assoc)
  with Cons show ?case by simp
qed

lemma minimum_Fin: "rs \<noteq> [] \<Longrightarrow> minimum (map Fin rs) = Inr (Fin (Min (set rs)))"
  by (cases rs) (simp_all add: foldl_fmin_Fin)

lemma add_to_group_Fin:
  assumes "1 \<le> grp" "grp \<le> int (length s)" "length c = length s"
  shows "add_to_group grp (Fin l) (map Fin s, c) =
           Inr (map Fin (s[nat (grp - 1) := s ! nat (grp - 1) + l]),
                c[nat (grp - 1) := c ! nat (grp - 1) + 1])"
proof -
  from assms have "nat (grp - 1) < length s" by linarith
  with assms show ?thesis
    by (simp add: add_to_group_def getindex_def setindex_def map_update)
qed

lemma logged_loop_Fin:
  assumes "\<forall>(i, r) \<in> set es. 0 < r + p \<and> 1 \<le> i \<and> i \<le> int (length group_vec) \<and>
             1 \<le> group_of group_vec i \<and> group_of group_vec i \<le> int (length s)"
    and "length c = length s"
  shows "logged_loop (Fin p) (map (\<lambda>(i, r). (i, Fin r)) es) group_vec (map Fin s, c) =
           Inr (map Fin (map (\<lambda>k. s ! k +
                   (\<Sum>(i, r) \<leftarrow> es. if group_of group_vec i = int k + 1 then log 10 (r + p) else 0))
                   [0..<length s]),
                map (\<lambda>k. c ! k +
                   int (length (filter (\<lambda>(i, r). group_of group_vec i = int k + 1) es)))
                   [0..<length s])"
  using assms
proof (induction es arbitrary: s c)
  case Nil
  then show ?case by (simp add: map_nth) (metis map_nth)
next
  case (Cons e es)
  obtain i r where e: "e = (i, r)" by (cases e)
  let ?g = "group_of group_vec i"
  let ?k0 = "nat (?g - 1)"
  let ?s1 = "s[?k0 := s ! ?k0 + log 10 (r + p)]"
  let ?c1 = "c[?k0 := c ! ?k0 + 1]"
  from Cons.prems e have h: "0 < r + p" "1 \<le> i" "i \<le> int (length group_vec)"
      "1 \<le> ?g" "?g \<le> int (length s)"
    by auto
  from h have k0: "?k0 < length s" by linarith
  have gi: "getindex group_vec i = Inr ?g"
    using h by (simp add: getindex_def group_of_def)
  have gs: "getindex (map Fin s) ?g = Inr (Fin (s ! ?k0))"
    using h k0 by (simp add: getindex_def)
  have lg: "flog10 (fadd (Fin r) (Fin p)) = Inr (Fin (log 10 (r + p)))"
    using h by simp
  have ag: "add_to_group ?g (Fin (log 10 (r + p))) (map Fin s, c) = Inr (map Fin ?s1, ?c1)"
    using add_to_group_Fin [OF h(4) h(5) Cons.prems(2)] .
  have rest: "\<forall>(i, r) \<in> set es. 0 < r + p \<and> 1 \<le> i \<and> i \<le> int (length group_vec) \<and>
             1 \<le> group_of group_vec i \<and> group_of group_vec i \<le> int (length ?s1)"
    using Cons.prems(1) by auto
  have len: "length ?c1 = length ?s1"
    using Cons.prems(2) by simp
  note ih = Cons.IH [OF rest len]
  have k_eq: "\<And>k. k < length s \<Longrightarrow> (?g = int k + 1) = (k = ?k0)"
    using h by auto
  have s_eq: "map (\<lambda>k. ?s1 ! k +
                   (\<Sum>(i, r) \<leftarrow> es. if group_of group_vec i = int k + 1 then log 10 (r + p) else 0))
                   [0..<length s] =
              map (\<lambda>k. s ! k +
                   (\<Sum>(i, r) \<leftarrow> e # es. if group_of group_vec i = int k + 1 then log 10 (r + p) else 0))
                   [0..<length s]"
    using k0 by (auto simp: e nth_list_update k_eq)
  have c_eq: "map (\<lambda>k. ?c1 ! k +
                   int (length (filter (\<lambda>(i, r). group_of group_vec i = int k + 1) es)))
                   [0..<length s] =
              map (\<lambda>k. c ! k +
                   int (length (filter (\<lambda>(i, r). group_of group_vec i = int k + 1) (e # es))))
                   [0..<length s]"
    using k0 Cons.prems(2) by (auto simp: e nth_list_update k_eq)
  have step: "logged_loop (Fin p) (map (\<lambda>(i, r). (i, Fin r)) (e # es)) group_vec (map Fin s, c) =
      logged_loop (Fin p) (map (\<lambda>(i, r). (i, Fin r)) es) group_vec (map Fin ?s1, ?c1)"
    using gi gs lg ag by (simp add: e del: flog10.simps fadd.simps)
  show ?case
    using ih unfolding step s_eq [symmetric] c_eq [symmetric] by (simp only: length_list_update)
qed


lemma zeros_loop_Fin:
  assumes "0 < p" and "distinct is" and "\<forall>i \<in> set is. 1 \<le> i \<and> i \<le> int (length s)"
    and "length gc = length s" and "length c = length s"
  shows "zeros_loop (Fin p) is gc c (map Fin s) =
           Inr (map Fin (map (\<lambda>k. if int k + 1 \<in> set is
                                    then s ! k + log 10 p * of_int (gc ! k - c ! k) else s ! k)
                  [0..<length s]))"
  using assms
proof (induction "is" arbitrary: s)
  case Nil
  then show ?case by (simp add: map_nth)
next
  case (Cons i "is")
  let ?k0 = "nat (i - 1)"
  let ?s1 = "s[?k0 := s ! ?k0 + log 10 p * of_int (gc ! ?k0 - c ! ?k0)]"
  from Cons.prems have h: "1 \<le> i" "i \<le> int (length s)" "i \<notin> set is" "distinct is"
    by auto
  from h have k0: "?k0 < length s" by linarith
  have g1: "getindex gc i = Inr (gc ! ?k0)" "getindex c i = Inr (c ! ?k0)"
      "getindex (map Fin s) i = Inr (Fin (s ! ?k0))"
    using h k0 Cons.prems(4,5) by (simp_all add: getindex_def)
  have lg: "flog10 (Fin p) = Inr (Fin (log 10 p))"
    using Cons.prems(1) by simp
  have st: "setindex (map Fin s) i
              (fadd (Fin (s ! ?k0)) (fmul (Fin (log 10 p)) (of_Int (gc ! ?k0 - c ! ?k0)))) =
            Inr (map Fin ?s1)"
    using h by (simp add: setindex_def of_Int_def map_update)
  have step: "zeros_loop (Fin p) (i # is) gc c (map Fin s) = zeros_loop (Fin p) is gc c (map Fin ?s1)"
    using g1 lg st by (simp del: flog10.simps fadd.simps fmul.simps)
  have rest: "\<forall>i \<in> set is. 1 \<le> i \<and> i \<le> int (length ?s1)"
    using Cons.prems(3) by simp
  have ih: "zeros_loop (Fin p) is gc c (map Fin ?s1) =
           Inr (map Fin (map (\<lambda>k. if int k + 1 \<in> set is
                                    then ?s1 ! k + log 10 p * of_int (gc ! k - c ! k) else ?s1 ! k)
                  [0..<length s]))"
    using Cons.IH [OF Cons.prems(1) h(4) rest] Cons.prems(4,5) by simp
  have k_eq: "\<And>k. k < length s \<Longrightarrow> (int k + 1 = i) = (k = ?k0)"
    using h by auto
  have s_eq: "map (\<lambda>k. if int k + 1 \<in> set is
                        then ?s1 ! k + log 10 p * of_int (gc ! k - c ! k) else ?s1 ! k)
                  [0..<length s] =
              map (\<lambda>k. if int k + 1 \<in> set (i # is)
                        then s ! k + log 10 p * of_int (gc ! k - c ! k) else s ! k)
                  [0..<length s]"
    using k0 h(1,3) by (auto simp: nth_list_update k_eq)
  show ?case
    unfolding step ih s_eq ..
qed

lemma group_ids_alt: "group_ids G = map (\<lambda>k. int k + 1) [0..<G]"
proof -
  have "[1..<Suc G] = map Suc [0..<G]"
    by (simp only: map_Suc_upt One_nat_def)
  then show ?thesis
    by (simp add: group_ids_def del: upt_Suc)
qed

lemma group_ids_props:
  "distinct (group_ids G)" "\<forall>i \<in> set (group_ids G). 1 \<le> i \<and> i \<le> int G"
  "k < G \<Longrightarrow> int k + 1 \<in> set (group_ids G)"
  by (auto simp: group_ids_alt distinct_map inj_on_def)

lemma zip_filter_count:
  "length inds = length rs \<Longrightarrow>
     length (filter (\<lambda>(i, r). P i) (zip inds rs)) = length (filter P inds)"
  by (induction inds rs rule: list_induct2) simp_all

text \<open>
  C1, as the code has it. For a sparse vector with at least one stored entry, all
  stored values positive, valid sample indices and group ids, and caches whose arrays
  have one length, the log path of \<^verbatim>\<open>groupby_mean!\<close> completes; its pseudo-count is a
  tenth of the smallest stored value, the count of each group is the number of its
  stored samples, and the sum of each group is \<open>log10 (value + p)\<close> over its stored
  samples plus \<open>log10 p * (group_size - count)\<close> for the samples that are not stored.
  For the values \<open>[0, 0, 4, 0]\<close> in one group of size 4 the sum is
  \<open>log10 (4 + 0.4) + 3 * log10 0.4\<close> (the instance after the theorem).
\<close>

theorem log_path_pseudo_count:
  assumes ne: "rs \<noteq> []" and len: "length inds = length rs"
    and pos: "\<forall>r \<in> set rs. 0 < r"
    and idx: "\<forall>i \<in> set inds. 1 \<le> i \<and> i \<le> int (length group_vec)"
    and grp: "\<forall>g \<in> set group_vec. 1 \<le> g \<and> g \<le> int (length (sum_cache cs))"
    and lm: "length (mean_cache cs) = length (sum_cache cs)"
    and lg: "length (group_count_cache cs) = length (sum_cache cs)"
    and lp: "length (prev_cache cs) = length (sum_cache cs)"
  shows "groupby_mean (Sparse n inds (map Fin rs)) group_vec cs True =
     Inr (cs\<lparr>mean_cache :=
               map (\<lambda>g. fdiv (Fin (spec_log_sum inds rs group_vec (group_count_cache cs) g))
                            (of_Int (group_count_cache cs ! nat (g - 1))))
                 (group_ids (length (sum_cache cs))),
             sum_cache :=
               map (\<lambda>g. Fin (spec_log_sum inds rs group_vec (group_count_cache cs) g))
                 (group_ids (length (sum_cache cs))),
             prev_cache :=
               map (spec_count inds group_vec) (group_ids (length (sum_cache cs)))\<rparr>)"
proof -
  define G where "G = length (sum_cache cs)"
  define p where "p = spec_pcount rs"
  define gc where "gc = group_count_cache cs"
  define es where "es = zip inds rs"
  define s0 where "s0 = replicate G (0 :: real)"
  define c0 where "c0 = replicate G (0 :: int)"
  define s1 where "s1 = map (\<lambda>k. s0 ! k +
      (\<Sum>(i, r) \<leftarrow> es. if group_of group_vec i = int k + 1 then log 10 (r + p) else 0))
      [0..<length s0]"
  define c1 where "c1 = map (\<lambda>k. c0 ! k +
      int (length (filter (\<lambda>(i, r). group_of group_vec i = int k + 1) es))) [0..<length s0]"
  define s2 where "s2 = map (\<lambda>k. if int k + 1 \<in> set (group_ids G)
      then s1 ! k + log 10 p * of_int (gc ! k - c1 ! k) else s1 ! k) [0..<length s1]"
  have l0: "length s0 = G" "length c0 = G" "length s1 = G" "length c1 = G" "length s2 = G"
    by (simp_all add: s0_def c0_def s1_def c1_def s2_def)
  have fin: "finite (set rs)" "set rs \<noteq> {}"
    using ne by simp_all
  have "Min (set rs) \<in> set rs"
    using fin by (rule Min_in)
  with pos have ppos: "0 < p"
    by (simp add: p_def spec_pcount_def)
  have mn: "minimum (map Fin rs) = Inr (Fin (Min (set rs)))"
    using ne by (rule minimum_Fin)
  have pc: "fdiv (Fin (Min (set rs))) (Fin 10) = Fin p"
    by (simp add: p_def spec_pcount_def)
  have zp: "zip inds (map Fin rs) = map (\<lambda>(i, r). (i, Fin r)) es"
    by (simp add: zip_map2 es_def)
  have z0: "replicate (length (sum_cache cs)) (Fin 0) = map Fin s0"
    "replicate (length (prev_cache cs)) 0 = c0"
    by (simp_all add: s0_def c0_def G_def lp)
  have valid: "\<forall>(i, r) \<in> set es. 0 < r + p \<and> 1 \<le> i \<and> i \<le> int (length group_vec) \<and>
             1 \<le> group_of group_vec i \<and> group_of group_vec i \<le> int (length s0)"
  proof (clarify)
    fix i r
    assume m: "(i, r) \<in> set es"
    then have i: "i \<in> set inds" and r: "r \<in> set rs"
      by (auto simp: es_def dest: set_zip_leftD set_zip_rightD)
    from i idx have ib: "1 \<le> i" "i \<le> int (length group_vec)"
      by auto
    then have "nat (i - 1) < length group_vec" by linarith
    then have "group_vec ! nat (i - 1) \<in> set group_vec" by simp
    with grp have "1 \<le> group_of group_vec i \<and> group_of group_vec i \<le> int G"
      by (simp add: group_of_def G_def)
    moreover from r pos ppos have "0 < r + p"
      by (simp add: add_pos_pos)
    ultimately show "0 < r + p \<and> 1 \<le> i \<and> i \<le> int (length group_vec) \<and>
             1 \<le> group_of group_vec i \<and> group_of group_vec i \<le> int (length s0)"
      using ib l0 by simp
  qed
  have ll: "logged_loop (Fin p) (map (\<lambda>(i, r). (i, Fin r)) es) group_vec (map Fin s0, c0) =
            Inr (map Fin s1, c1)"
    unfolding s1_def c1_def
    by (rule logged_loop_Fin [OF valid]) (simp add: l0)
  have zl: "zeros_loop (Fin p) (group_ids G) gc c1 (map Fin s1) = Inr (map Fin s2)"
    unfolding s2_def
    by (rule zeros_loop_Fin [OF ppos group_ids_props(1)])
       (use group_ids_props(2) [of G] lg l0 in \<open>simp_all add: gc_def G_def\<close>)
  have gi: "map int [1..<Suc (length (map Fin s1))] = group_ids G"
    by (simp add: group_ids_def l0 del: upt_Suc)
  have pl: "populate_caches_logged (Sparse n inds (map Fin rs)) group_vec
              (replicate (length (sum_cache cs)) (Fin 0), replicate (length (prev_cache cs)) 0)
              (group_count_cache cs) =
            Inr (map Fin s2, c1)"
    unfolding z0 zp gc_def [symmetric]
    by (simp only: populate_caches_logged_def vec.case mn sum.case Let_def pc zp ll
          fst_conv snd_conv gi zl)
  have c1_eq: "c1 = map (spec_count inds group_vec) (group_ids G)"
    by (simp add: c1_def c0_def s0_def es_def group_ids_alt spec_count_def
        zip_filter_count [OF len] del: upt_Suc)
  have s2_eq: "s2 = map (spec_log_sum inds rs group_vec gc) (group_ids G)"
    unfolding s2_def c1_eq l0 s1_def p_def
    by (simp add: s0_def c0_def es_def group_ids_alt spec_log_sum_def
        group_ids_props(3) del: upt_Suc)
  have bd: "broadcast_div (length (mean_cache cs)) (map Fin s2) gc =
      Inr (map (\<lambda>g. fdiv (Fin (spec_log_sum inds rs group_vec gc g)) (of_Int (gc ! nat (g - 1))))
             (group_ids G))"
  proof -
    have "length (map Fin s2) = length (mean_cache cs)" "length gc = length (mean_cache cs)"
      using lm lg l0 by (simp_all add: G_def gc_def)
    then have "broadcast_div (length (mean_cache cs)) (map Fin s2) gc =
        Inr (map2 (\<lambda>s g. fdiv s (of_Int g)) (map Fin s2) gc)"
      by (simp only: broadcast_div_def bcast_same sum.case)
    moreover have "map2 (\<lambda>s g. fdiv s (of_Int g)) (map Fin s2) gc =
        map (\<lambda>g. fdiv (Fin (spec_log_sum inds rs group_vec gc g)) (of_Int (gc ! nat (g - 1))))
             (group_ids G)"
      unfolding s2_eq using lg
      by (intro nth_equalityI) (simp_all add: group_ids_alt gc_def G_def del: upt_Suc)
    ultimately show ?thesis by simp
  qed
  have "groupby_mean (Sparse n inds (map Fin rs)) group_vec cs True =
      Inr (cs\<lparr>mean_cache := map (\<lambda>g. fdiv (Fin (spec_log_sum inds rs group_vec gc g))
                                          (of_Int (gc ! nat (g - 1)))) (group_ids G),
              sum_cache := map Fin s2, prev_cache := c1\<rparr>)"
    unfolding groupby_mean_def Let_def
    by (simp only: if_True pl sum.case fst_conv snd_conv bd [unfolded gc_def])
       (simp only: gc_def)
  then show ?thesis
    unfolding s2_eq c1_eq gc_def G_def by (simp add: comp_def)
qed

theorem log_path_pseudo_count_witness:
  "groupby_mean (Sparse 4 [3] [Fin 4]) [1, 1, 1, 1]
       \<lparr>abunds_cache = [], mean_cache = [Fin 0], sum_cache = [Fin 0],
        group_count_cache = [4], prev_cache = [0]\<rparr> True =
     Inr \<lparr>abunds_cache = [],
          mean_cache = [Fin ((log 10 (4 + 4 / 10) + 3 * log 10 (4 / 10)) / 4)],
          sum_cache = [Fin (log 10 (4 + 4 / 10) + 3 * log 10 (4 / 10))],
          group_count_cache = [4], prev_cache = [1]\<rparr>"
  using log_path_pseudo_count [of "[4]" "[3]" "[1, 1, 1, 1]"
      "\<lparr>abunds_cache = [], mean_cache = [Fin 0], sum_cache = [Fin 0],
        group_count_cache = [4], prev_cache = [0]\<rparr>" 4]
  by (simp add: spec_log_sum_def spec_pcount_def spec_count_def group_of_def group_ids_def
      of_Int_def)

text \<open>
  The stored values need to be positive. The pseudo-count is taken over all stored
  values: with an explicitly stored zero next to the value 4 (three samples in one
  group) it is 0, not 0.4, and the sum of the group is \<open>-\<infinity>\<close>. With a stored negative
  value the logarithm raises.
\<close>

theorem log_path_stored_zero_or_negative:
  "groupby_mean (Sparse 3 [1, 2] [Fin 0, Fin 4]) [1, 1, 1]
       \<lparr>abunds_cache = [], mean_cache = [Fin 0], sum_cache = [Fin 0],
        group_count_cache = [3], prev_cache = [0]\<rparr> True =
     Inr \<lparr>abunds_cache = [], mean_cache = [NInf], sum_cache = [NInf],
          group_count_cache = [3], prev_cache = [2]\<rparr> \<and>
   groupby_mean (Sparse 1 [1] [Fin (- 1)]) [1]
       \<lparr>abunds_cache = [], mean_cache = [Fin 0], sum_cache = [Fin 0],
        group_count_cache = [1], prev_cache = [0]\<rparr> True =
     Inl DomainError"
  by (simp add: groupby_mean_def populate_caches_logged_def add_to_group_def getindex_def
      setindex_def broadcast_div_def bcast_def of_Int_def)

subsection \<open>The log path without stored values\<close>

text \<open>
  C5, as the code has it. A sparse vector with no stored entry makes the log path of
  \<^verbatim>\<open>groupby_mean!\<close> fail with the \<^verbatim>\<open>ArgumentError\<close> of \<^verbatim>\<open>minimum\<close> over an empty
  collection, for every group vector and every state of the caches.
\<close>

theorem log_path_empty_fails:
  "groupby_mean (Sparse n inds []) group_vec cs True = Inl ArgumentError"
  by (simp add: groupby_mean_def populate_caches_logged_def)

text \<open>
  Nothing in the log path looks at the values themselves: a sparse vector whose only
  stored entry is an explicit zero has no non-zero value, and the call completes with
  NaN in the sum and in the mean.
\<close>

theorem log_path_stored_zero_completes:
  "all_iszero (Sparse 1 [1] [Fin 0]) \<and>
   groupby_mean (Sparse 1 [1] [Fin 0]) [1]
       \<lparr>abunds_cache = [], mean_cache = [Fin 0], sum_cache = [Fin 0],
        group_count_cache = [1], prev_cache = [0]\<rparr> True =
     Inr \<lparr>abunds_cache = [], mean_cache = [NaN], sum_cache = [NaN],
          group_count_cache = [1], prev_cache = [1]\<rparr>"
  by (simp add: all_iszero_def iszero_def groupby_mean_def populate_caches_logged_def
      add_to_group_def getindex_def setindex_def broadcast_div_def bcast_def of_Int_def)

subsection \<open>The correlation of the log-transformed means\<close>

lemma add_to_group_nonempty:
  "add_to_group grp val sp = Inr sp' \<Longrightarrow> snd sp \<noteq> []"
  by (auto simp: add_to_group_def getindex_def setindex_def split: if_splits sum.splits)

lemma populate_caches_generic_nonempty:
  "populate_caches_generic i xs group_vec sp = Inr sp' \<Longrightarrow> xs \<noteq> [] \<Longrightarrow> snd sp \<noteq> []"
  by (cases xs) (auto split: sum.splits dest: add_to_group_nonempty)

lemma populate_caches_sparse_nonempty:
  "populate_caches_sparse es group_vec sp = Inr sp' \<Longrightarrow> es \<noteq> [] \<Longrightarrow> snd sp \<noteq> []"
  by (cases es) (auto split: sum.splits dest: add_to_group_nonempty)

lemma not_all_iszero_nonempty: "\<not> all_iszero val_vec \<Longrightarrow> input_values val_vec \<noteq> []"
  by (cases val_vec) (auto simp: all_iszero_def input_values_def)

lemma groupby_mean_prev_nonempty:
  assumes "groupby_mean val_vec group_vec cs False = Inr cs'" and "\<not> all_iszero val_vec"
  shows "prev_cache cs' \<noteq> []"
proof -
  from assms(1) obtain sp where
    p: "populate_caches val_vec group_vec
           (replicate (length (sum_cache cs)) (Fin 0), replicate (length (prev_cache cs)) 0) = Inr sp"
    by (auto simp: groupby_mean_def Let_def split: sum.splits)
  from not_all_iszero_nonempty [OF assms(2)] p
  have "replicate (length (prev_cache cs)) (0 :: int) \<noteq> []"
    by (cases val_vec)
       (auto simp: populate_caches_def input_values_def
             dest: populate_caches_generic_nonempty populate_caches_sparse_nonempty)
  with groupby_mean_lengths(3) [OF assms(1)] show ?thesis by auto
qed

lemma log10_all_Fin:
  "\<forall>m \<in> set ms. 0 < m + p \<Longrightarrow>
     log10_all (Fin p) (map Fin ms) = Inr (map (\<lambda>m. Fin (log 10 (m + p))) ms)"
  by (induction ms) simp_all

lemma filter_nonzero_Fin:
  "filter (\<lambda>m. \<not> iszero m) (map Fin ms) = map Fin (filter (\<lambda>m. m \<noteq> 0) ms)"
  by (induction ms) (simp_all add: iszero_def)

lemma list_ex_iszero_Fin: "list_ex iszero (map Fin ms) = (0 \<in> set ms)"
  by (induction ms) (auto simp: iszero_def)

lemma log_means_block_Fin:
  assumes nonneg: "\<forall>m \<in> set ms. 0 \<le> m" and some: "\<exists>m \<in> set ms. 0 < m"
  shows "log_means_block (map Fin ms) =
           Inr (map (\<lambda>m. Fin (log 10 (m + spec_mean_pcount ms))) ms)"
proof (cases "0 \<in> set ms")
  case True
  let ?nz = "filter (\<lambda>m. m \<noteq> 0) ms"
  from some obtain m0 where "m0 \<in> set ms" "m0 \<noteq> 0"
    by fastforce
  then have ne: "?nz \<noteq> []"
    by (auto simp: filter_empty_conv)
  have mn: "minimum (map Fin ?nz) = Inr (Fin (Min (set ?nz)))"
    using ne by (rule minimum_Fin)
  have "finite (set ?nz)"
    by (rule finite_set)
  moreover have "set ?nz \<noteq> {}"
    using ne by (simp only: set_empty not_False_eq_True)
  ultimately have "Min (set ?nz) \<in> set ?nz"
    by (rule Min_in)
  then have "Min (set ?nz) \<in> set ms" "Min (set ?nz) \<noteq> 0"
    by simp_all
  with nonneg have "0 < Min (set ?nz)"
    by (simp add: order_less_le)
  then have p: "0 < spec_mean_pcount ms"
    using True by (simp add: spec_mean_pcount_def)
  have pc: "fdiv (Fin (Min (set ?nz))) (Fin 10) = Fin (spec_mean_pcount ms)"
    using True by (simp add: spec_mean_pcount_def)
  have all: "\<forall>m \<in> set ms. 0 < m + spec_mean_pcount ms"
    using nonneg p by (auto intro: add_nonneg_pos)
  show ?thesis
    unfolding log_means_block_def
    by (simp only: list_ex_iszero_Fin True if_True filter_nonzero_Fin mn sum.case pc
        log10_all_Fin [OF all])
next
  case False
  then have p: "spec_mean_pcount ms = 0"
    by (simp add: spec_mean_pcount_def)
  have all: "\<forall>m \<in> set ms. 0 < m + spec_mean_pcount ms"
    using nonneg False unfolding p by (metis add.right_neutral order_le_less)
  show ?thesis
    unfolding log_means_block_def
    using log10_all_Fin [OF all]
    by (simp only: list_ex_iszero_Fin False if_False sum.case p)
qed

text \<open>
  C6, as the code has it. For a vector that is not all zero, \<^verbatim>\<open>_fast_cor_binned\<close>
  with \<open>log_means\<close> set aggregates the raw values without log transform; when the
  resulting means \<open>ms\<close> are finite and non-negative with at least one positive, it
  replaces each mean \<open>m\<close> by \<open>log10 (m + p)\<close>, where \<open>p\<close> is a tenth of the smallest
  non-zero mean if some mean is zero and 0 otherwise, and returns the correlation of
  the transformed means with the reference values, together with the number of groups
  with a non-zero count and the sum of the counts.
\<close>

theorem log_means_pipeline:
  assumes nz: "\<not> all_iszero val_vec"
    and agg: "groupby_mean val_vec v2_binned cs False = Inr cs1"
    and fin: "mean_cache cs1 = map Fin ms"
    and nonneg: "\<forall>m \<in> set ms. 0 \<le> m" and some: "\<exists>m \<in> set ms. 0 < m"
  shows "fast_cor_binned corf val_vec v2_binned bins_srt cs True =
     (case corf (map (\<lambda>m. Fin (log 10 (m + spec_mean_pcount ms))) ms) bins_srt of
        Inl e \<Rightarrow> Inl e
      | Inr stat \<Rightarrow>
          Inr (\<lparr>cor = stat,
                 n_bins_obs = int (length (filter (\<lambda>c. c \<noteq> 0) (prev_cache cs1))),
                 prev = sum_list (prev_cache cs1)\<rparr>,
               cs1\<lparr>mean_cache := map (\<lambda>m. Fin (log 10 (m + spec_mean_pcount ms))) ms\<rparr>))"
proof -
  have cn: "count_nonzero (prev_cache cs1) =
      Inr (int (length (filter (\<lambda>c. c \<noteq> 0) (prev_cache cs1))))"
    using groupby_mean_prev_nonempty [OF agg nz] by (simp add: count_nonzero_def)
  have lb: "log_means_block (mean_cache cs1) =
      Inr (map (\<lambda>m. Fin (log 10 (m + spec_mean_pcount ms))) ms)"
    unfolding fin using nonneg some by (rule log_means_block_Fin)
  show ?thesis
    unfolding fast_cor_binned_def
    by (simp only: nz if_False agg sum.case cn if_True lb)
qed

theorem log_means_pipeline_witness:
  "\<not> all_iszero (Sparse 2 [2] [Fin 4]) \<and>
   groupby_mean (Sparse 2 [2] [Fin 4]) [1, 2]
       \<lparr>abunds_cache = [], mean_cache = [Fin 0, Fin 0], sum_cache = [Fin 0, Fin 0],
        group_count_cache = [1, 1], prev_cache = [0, 0]\<rparr> False =
     Inr \<lparr>abunds_cache = [], mean_cache = map Fin [0, 4], sum_cache = [Fin 0, Fin 4],
          group_count_cache = [1, 1], prev_cache = [0, 1]\<rparr> \<and>
   (0 :: real) \<le> 0 \<and> (0 :: real) < 4 \<and>
   fast_cor_binned (\<lambda>xs ys. if length xs = length ys then Inr (Fin 1) else Inl DimensionMismatch)
       (Sparse 2 [2] [Fin 4]) [1, 2] [Fin 10, Fin 20]
       \<lparr>abunds_cache = [], mean_cache = [Fin 0, Fin 0], sum_cache = [Fin 0, Fin 0],
        group_count_cache = [1, 1], prev_cache = [0, 0]\<rparr> True =
     Inr (\<lparr>cor = Fin 1, n_bins_obs = 1, prev = 1\<rparr>,
          \<lparr>abunds_cache = [],
           mean_cache = [Fin (log 10 (0 + 4 / 10)), Fin (log 10 (4 + 4 / 10))],
           sum_cache = [Fin 0, Fin 4], group_count_cache = [1, 1], prev_cache = [0, 1]\<rparr>)"
proof -
  let ?v = "Sparse 2 [2] [Fin 4]"
  let ?cs = "\<lparr>abunds_cache = [], mean_cache = [Fin 0, Fin 0], sum_cache = [Fin 0, Fin 0],
        group_count_cache = [1, 1], prev_cache = [0, 0]\<rparr>"
  let ?cs1 = "\<lparr>abunds_cache = [], mean_cache = map Fin [0, 4], sum_cache = [Fin 0, Fin 4],
          group_count_cache = [1, 1], prev_cache = [0, 1]\<rparr>"
  have nz: "\<not> all_iszero ?v"
    by (simp add: all_iszero_def iszero_def)
  have agg: "groupby_mean ?v [1, 2] ?cs False = Inr ?cs1"
    by (simp add: groupby_mean_def populate_caches_def add_to_group_def getindex_def
        setindex_def broadcast_div_def bcast_def of_Int_def)
  have fin: "mean_cache ?cs1 = map Fin [0, 4]"
    by simp
  have nonneg: "\<forall>m \<in> set [0, 4 :: real]. 0 \<le> m" and some: "\<exists>m \<in> set [0, 4 :: real]. 0 < m"
    by simp_all
  show ?thesis
    using nz agg
      log_means_pipeline [OF nz agg fin nonneg some,
        of "\<lambda>xs ys. if length xs = length ys then Inr (Fin 1) else Inl DimensionMismatch"
           "[Fin 10, Fin 20]"]
    by (simp add: spec_mean_pcount_def)
qed

text \<open>
  The means need to be non-negative and not all zero: a negative mean makes the
  logarithm raise, and values that cancel to the mean 0 in every group leave no
  non-zero mean to take the minimum of. No correlation is computed in either case.
\<close>

theorem log_means_negative_or_cancelling:
  "fast_cor_binned (\<lambda>xs ys. if length xs = length ys then Inr (Fin 1) else Inl DimensionMismatch)
       (Sparse 1 [1] [Fin (- 1)]) [1] [Fin 0]
       \<lparr>abunds_cache = [], mean_cache = [Fin 0], sum_cache = [Fin 0],
        group_count_cache = [1], prev_cache = [0]\<rparr> True =
     Inl DomainError \<and>
   fast_cor_binned (\<lambda>xs ys. if length xs = length ys then Inr (Fin 1) else Inl DimensionMismatch)
       (Sparse 2 [1, 2] [Fin 1, Fin (- 1)]) [1, 1] [Fin 0]
       \<lparr>abunds_cache = [], mean_cache = [Fin 0], sum_cache = [Fin 0],
        group_count_cache = [2], prev_cache = [0]\<rparr> True =
     Inl ArgumentError"
  by (simp add: fast_cor_binned_def all_iszero_def iszero_def groupby_mean_def
      populate_caches_def add_to_group_def getindex_def setindex_def broadcast_div_def
      bcast_def of_Int_def count_nonzero_def log_means_block_def Let_def)

subsection \<open>Dense and sparse input\<close>

text \<open>
  What the two methods of \<^verbatim>\<open>_populate_caches!\<close> agree on: when the call on a dense
  vector completes, the call on its sparse representation completes with the same sums
  and the same means (adding a zero changes no sum). And on a sparse vector the
  prevalence that \<^verbatim>\<open>_fast_cor_binned\<close> returns is the number of stored entries.
\<close>

lemma fadd_zero: "fadd x (Fin 0) = x"
  by (cases x) simp_all

lemma add_to_group_zero:
  assumes "add_to_group grp (Fin 0) sp = Inr sp'"
  shows "fst sp' = fst sp" and "length (snd sp') = length (snd sp)"
  using assms
  by (auto simp: add_to_group_def getindex_def setindex_def fadd_zero split: if_splits)

lemma add_to_group_counts_irrelevant:
  assumes "add_to_group grp val (s, p) = Inr (s', p')" and "length q = length p"
  shows "\<exists>q'. add_to_group grp val (s, q) = Inr (s', q') \<and> length q' = length p'"
  using assms
  by (auto simp: add_to_group_def getindex_def setindex_def split: if_splits)

lemma dense_sparse_loop:
  assumes "populate_caches_generic i xs group_vec (s, p) = Inr (s', p')"
    and "length q = length p"
  shows "\<exists>q'. populate_caches_sparse (filter (\<lambda>(i, x). \<not> iszero x) (pairs_from i xs))
                 group_vec (s, q) = Inr (s', q')"
  using assms
proof (induction xs arbitrary: i s p q)
  case Nil
  then show ?case by simp
next
  case (Cons x xs)
  from Cons.prems(1) obtain grp s1 p1 where
    g: "getindex group_vec i = Inr grp" and
    a: "add_to_group grp x (s, p) = Inr (s1, p1)" and
    b: "populate_caches_generic (i + 1) xs group_vec (s1, p1) = Inr (s', p')"
    by (auto split: sum.splits)
  show ?case
  proof (cases "iszero x")
    case True
    then have x: "x = Fin 0" by (simp add: iszero_def)
    from add_to_group_zero [OF a [unfolded x]] have "s1 = s" "length p1 = length p"
      by simp_all
    with Cons.IH [OF b [unfolded \<open>s1 = s\<close>], of q] Cons.prems(2) True show ?thesis
      by simp
  next
    case False
    from add_to_group_counts_irrelevant [OF a Cons.prems(2)] obtain q1 where
      c: "add_to_group grp x (s, q) = Inr (s1, q1)" and l: "length q1 = length p1"
      by blast
    from Cons.IH [OF b l] False g c show ?thesis
      by simp
  qed
qed

lemma dense_sparse_sum_mean:
  assumes "groupby_mean (Dense xs) group_vec cs False = Inr cs'"
  shows "\<exists>cs''. groupby_mean (sparse_of xs) group_vec cs False = Inr cs'' \<and>
           sum_cache cs'' = sum_cache cs' \<and> mean_cache cs'' = mean_cache cs'"
proof -
  let ?s0 = "replicate (length (sum_cache cs)) (Fin 0)"
  let ?p0 = "replicate (length (prev_cache cs)) (0 :: int)"
  let ?nz = "filter (\<lambda>(i, x). \<not> iszero x) (pairs_from 1 xs)"
  from assms obtain s p ms where
    d: "populate_caches_generic 1 xs group_vec (?s0, ?p0) = Inr (s, p)" and
    m: "broadcast_div (length (mean_cache cs)) s (group_count_cache cs) = Inr ms" and
    c: "cs' = cs\<lparr>mean_cache := ms, sum_cache := s, prev_cache := p\<rparr>"
    by (auto simp: groupby_mean_def populate_caches_def Let_def split: sum.splits)
  from dense_sparse_loop [OF d refl] obtain q where
    "populate_caches_sparse ?nz group_vec (?s0, ?p0) = Inr (s, q)"
    by blast
  then have "groupby_mean (sparse_of xs) group_vec cs False =
      Inr (cs\<lparr>mean_cache := ms, sum_cache := s, prev_cache := q\<rparr>)"
    by (simp add: groupby_mean_def populate_caches_def sparse_of_def Let_def zip_map_fst_snd m)
  with c show ?thesis by simp
qed

lemma add_to_group_count:
  assumes "add_to_group grp val sp = Inr sp'"
  shows "sum_list (snd sp') = sum_list (snd sp) + 1"
proof -
  from assms have r: "1 \<le> grp" "grp \<le> int (length (snd sp))"
    and s: "snd sp' = (snd sp)[nat (grp - 1) := snd sp ! nat (grp - 1) + 1]"
    by (auto simp: add_to_group_def getindex_def setindex_def split: if_splits)
  from r have "nat (grp - 1) < length (snd sp)" by linarith
  then show ?thesis
    unfolding s by (rule sum_list_update_add)
qed

lemma populate_caches_sparse_count:
  "populate_caches_sparse es group_vec sp = Inr sp' \<Longrightarrow>
     sum_list (snd sp') = sum_list (snd sp) + int (length es)"
proof (induction es arbitrary: sp)
  case Nil
  then show ?case by simp
next
  case (Cons e es)
  obtain i x where e: "e = (i, x)" by (cases e)
  from Cons.prems e obtain grp sp1 where
    a: "add_to_group grp x sp = Inr sp1" and
    b: "populate_caches_sparse es group_vec sp1 = Inr sp'"
    by (auto split: sum.splits)
  show ?case
    using Cons.IH [OF b] add_to_group_count [OF a] by simp
qed

lemma sparse_prevalence:
  assumes "fast_cor_binned corf (Sparse n inds vals) v2_binned bins_srt cs log_means = Inr (r, cs')"
    and "\<not> all_iszero (Sparse n inds vals)"
  shows "prev r = int (length (zip inds vals))"
proof -
  from assms obtain cs1 where
    g: "groupby_mean (Sparse n inds vals) v2_binned cs False = Inr cs1" and
    p: "prev r = sum_list (prev_cache cs1)"
    by (auto simp: fast_cor_binned_def split: sum.splits if_splits)
  from g obtain sp where
    l: "populate_caches_sparse (zip inds vals) v2_binned
          (replicate (length (sum_cache cs)) (Fin 0), replicate (length (prev_cache cs)) 0) = Inr sp"
    and "prev_cache cs1 = snd sp"
    by (auto simp: groupby_mean_def populate_caches_def Let_def split: sum.splits)
  with populate_caches_sparse_count [OF l] p show ?thesis
    by (simp add: sum_list_replicate)
qed

text \<open>
  C3. The dense vector \<open>[0, 4]\<close> and its sparse representation (one stored entry, 4 at
  index 2), both samples in group 1: the sums and the means agree, the counts do not.
  The generic method counts both entries, the sparse method the stored one.
\<close>

theorem dense_sparse_counts_differ:
  "sparse_of [Fin 0, Fin 4] = Sparse 2 [2] [Fin 4] \<and>
   groupby_mean (Dense [Fin 0, Fin 4]) [1, 1]
       \<lparr>abunds_cache = [], mean_cache = [Fin 0], sum_cache = [Fin 0],
        group_count_cache = [2], prev_cache = [0]\<rparr> False =
     Inr \<lparr>abunds_cache = [], mean_cache = [Fin 2], sum_cache = [Fin 4],
          group_count_cache = [2], prev_cache = [2]\<rparr> \<and>
   groupby_mean (Sparse 2 [2] [Fin 4]) [1, 1]
       \<lparr>abunds_cache = [], mean_cache = [Fin 0], sum_cache = [Fin 0],
        group_count_cache = [2], prev_cache = [0]\<rparr> False =
     Inr \<lparr>abunds_cache = [], mean_cache = [Fin 2], sum_cache = [Fin 4],
          group_count_cache = [2], prev_cache = [1]\<rparr>"
  by (simp add: sparse_of_def iszero_def groupby_mean_def populate_caches_def
      add_to_group_def getindex_def setindex_def broadcast_div_def bcast_def of_Int_def)

text \<open>
  C7. For the dense vector \<open>[0, 4]\<close>, which has one non-zero observation,
  \<^verbatim>\<open>_fast_cor_binned\<close> reports the prevalence 2 (and one observed bin), with any
  correlation function that returns a value.
\<close>

theorem dense_prevalence_counts_zeros:
  "fast_cor_binned corf (Dense [Fin 0, Fin 4]) [1, 1] [Fin 0]
       \<lparr>abunds_cache = [], mean_cache = [Fin 0], sum_cache = [Fin 0],
        group_count_cache = [2], prev_cache = [0]\<rparr> True =
     (case corf [Fin (log 10 2)] [Fin 0] of
        Inl e \<Rightarrow> Inl e
      | Inr stat \<Rightarrow>
          Inr (\<lparr>cor = stat, n_bins_obs = 1, prev = 2\<rparr>,
               \<lparr>abunds_cache = [], mean_cache = [Fin (log 10 2)], sum_cache = [Fin 4],
                group_count_cache = [2], prev_cache = [2]\<rparr>))"
  by (simp add: fast_cor_binned_def all_iszero_def iszero_def groupby_mean_def
      populate_caches_def add_to_group_def getindex_def setindex_def broadcast_div_def
      bcast_def of_Int_def count_nonzero_def log_means_block_def split: sum.split)

subsection \<open>The reliability filter\<close>

lemma row_of_with_pvals: "row_of (with_pvals r p pa) = r"
  by (simp add: row_of_def with_pvals_def)

lemma rows_of_test_rows:
  "length ps = length kept \<Longrightarrow>
     map row_of (map (\<lambda>(r, p). with_pvals r p None) (zip kept ps)) = kept"
  by (induction kept ps rule: list_induct2') (simp_all add: row_of_with_pvals)

lemma rows_of_test_rows_adj:
  "length ps = length kept \<Longrightarrow> length qs = length kept \<Longrightarrow>
     map row_of (map (\<lambda>(r, p, pa). with_pvals r p (Some pa)) (zip kept (zip ps qs))) = kept"
proof (induction kept arbitrary: ps qs)
  case Nil
  then show ?case by simp
next
  case (Cons r kept)
  then show ?case
    by (cases ps; cases qs) (simp_all add: row_of_with_pvals)
qed

lemma compute_split:
  assumes run: "compute_latitudinal_abundance_cors corf fz_pval adjust otu_matn lats_binned
                  prev_min f do_FDR = Inr (test_df, unrel_df)"
    and tab: "cor_table corf otu_matn lats_binned = Inr cor_df"
  shows "\<exists>thr. n_bins_obs_min (int (length (sort (remdups (lat_vals lats_binned))))) f = Inr thr \<and>
           unrel_df = filter (filt_mask prev_min thr) cor_df \<and>
           map row_of test_df = filter (\<lambda>r. \<not> filt_mask prev_min thr r) cor_df"
proof -
  from run obtain thr where
    thr: "n_bins_obs_min (int (length (sort (remdups (lat_vals lats_binned))))) f = Inr thr"
    by (auto simp: compute_latitudinal_abundance_cors_def split: if_splits sum.splits)
  let ?kept = "filter (\<lambda>r. \<not> filt_mask prev_min thr r) cor_df"
  let ?pvals = "map (\<lambda>x. fz_pval (cor x) (n_obs x) 0) ?kept"
  from run thr tab have u: "unrel_df = filter (filt_mask prev_min thr) cor_df"
    by (auto simp: compute_latitudinal_abundance_cors_def Let_def split: if_splits)
  have "map row_of test_df = ?kept"
  proof (cases do_FDR)
    case True
    with run thr tab have l: "length (adjust ?pvals) = length ?kept"
      and t: "test_df = map (\<lambda>(r, p, pa). with_pvals r p (Some pa))
                          (zip ?kept (zip ?pvals (adjust ?pvals)))"
      by (auto simp: compute_latitudinal_abundance_cors_def Let_def split: if_splits)
    show ?thesis
      unfolding t by (rule rows_of_test_rows_adj) (simp_all add: l)
  next
    case False
    with run thr tab have
      t: "test_df = map (\<lambda>(r, p). with_pvals r p None) (zip ?kept ?pvals)"
      by (auto simp: compute_latitudinal_abundance_cors_def Let_def split: if_splits)
    show ?thesis
      unfolding t by (rule rows_of_test_rows) simp
  qed
  with thr u show ?thesis by blast
qed


lemma fast_cor_binned_n_bins_obs:
  "fast_cor_binned corf val_vec v2_binned bins_srt cs log_means = Inr (r, cs') \<Longrightarrow>
     0 \<le> n_bins_obs r"
  by (auto simp: fast_cor_binned_def count_nonzero_def split: if_splits sum.splits)

lemma cor_rows_n_bins_obs:
  "cor_rows corf cols lats_binned_indmap bins_srt n_bins cs = Inr rs \<Longrightarrow>
     \<forall>r \<in> set rs. 0 \<le> n_bins_obs r"
proof (induction cols arbitrary: cs rs)
  case Nil
  then show ?case by simp
next
  case (Cons c cols)
  obtain k col where c: "c = (k, col)" by (cases c)
  from Cons.prems c obtain r cs' rs' where
    a: "fast_cor_binned corf col lats_binned_indmap bins_srt cs True = Inr (r, cs')" and
    b: "cor_rows corf cols lats_binned_indmap bins_srt n_bins cs' = Inr rs'" and
    e: "rs = \<lparr>cor = cor r, n_bins_obs = n_bins_obs r, prev = prev r, oid = k, n_obs = n_bins\<rparr> # rs'"
    by (auto split: sum.splits)
  show ?case
    using Cons.IH [OF b] fast_cor_binned_n_bins_obs [OF a] e by simp
qed

lemma cor_table_n_bins_obs:
  "cor_table corf otu_matn lats_binned = Inr cor_df \<Longrightarrow> \<forall>r \<in> set cor_df. 0 \<le> n_bins_obs r"
  by (auto simp: cor_table_def Let_def split: if_splits sum.splits dest!: cor_rows_n_bins_obs)




text \<open>
  C10. With the factor \<open>-1\<close> the minimum number of bins is 0, and the unreliable table
  holds exactly the rows whose prevalence is below \<open>prev_min\<close>; all others are in the
  result table. (The instance after the theorem: the same OTU, observed in one bin of
  ten, stays in the result table.)
\<close>

theorem default_factor_disables_bin_filter:
  assumes run: "compute_latitudinal_abundance_cors corf fz_pval adjust otu_matn lats_binned
                  prev_min (- 1) do_FDR = Inr (test_df, unrel_df)"
    and tab: "cor_table corf otu_matn lats_binned = Inr cor_df"
  shows "n_bins_obs_min n_bins (- 1) = Inr 0 \<and>
         unrel_df = filter (\<lambda>r. prev r < prev_min) cor_df \<and>
         map row_of test_df = filter (\<lambda>r. \<not> prev r < prev_min) cor_df"
proof -
  have thr: "\<And>n. n_bins_obs_min n (- 1) = Inr 0"
    by (simp add: n_bins_obs_min_def)
  have m: "\<And>r. r \<in> set cor_df \<Longrightarrow> filt_mask prev_min 0 r = (prev r < prev_min)"
    using cor_table_n_bins_obs [OF tab] by (auto simp: filt_mask_def)
  from compute_split [OF run tab] thr
  have "unrel_df = filter (filt_mask prev_min 0) cor_df"
    and "map row_of test_df = filter (\<lambda>r. \<not> filt_mask prev_min 0 r) cor_df"
    by auto
  moreover have "filter (filt_mask prev_min 0) cor_df = filter (\<lambda>r. prev r < prev_min) cor_df"
    by (rule filter_cong) (simp_all add: m)
  moreover have "filter (\<lambda>r. \<not> filt_mask prev_min 0 r) cor_df =
      filter (\<lambda>r. \<not> prev r < prev_min) cor_df"
    by (rule filter_cong) (simp_all add: m)
  ultimately show ?thesis
    using thr by simp
qed

theorem default_factor_disables_bin_filter_witness:
  "compute_latitudinal_abundance_cors
        (\<lambda>xs ys. if length xs = length ys then Inr (Fin 1) else Inl DimensionMismatch)
        (\<lambda>c n k. Fin (1 / 2)) (\<lambda>ps. ps)
        \<lparr>sample_keys = [0, 1, 2, 3, 4, 5, 6, 7, 8, 9 :: nat],
         otu_cols = [(''otu1'', Sparse 10 [3] [Fin 4])]\<rparr>
        \<lparr>lat_keys = [0, 1, 2, 3, 4, 5, 6, 7, 8, 9 :: nat],
         lat_vals = [0, 10, 20, 30, 40, 50, 60, 70, 80, 5]\<rparr> 1 (- 1) False =
     Inr ([\<lparr>cor = Fin 1, n_bins_obs = 1, prev = 1, oid = ''otu1'', n_obs = 10,
            pval = Fin (1 / 2), pval_adj = None\<rparr>], []) \<and>
   n_bins_obs_min 10 (- 1) = Inr 0 \<and>
   \<not> prev \<lparr>cor = Fin 1, n_bins_obs = 1, prev = 1, oid = ''otu1'', n_obs = 10\<rparr> < 1"
proof -
  let ?corf = "\<lambda>xs ys :: f64 list. if length xs = length ys then Inr (Fin 1) else Inl DimensionMismatch"
  let ?otu = "\<lparr>sample_keys = [0, 1, 2, 3, 4, 5, 6, 7, 8, 9 :: nat],
         otu_cols = [(''otu1'', Sparse 10 [3] [Fin 4])]\<rparr>"
  let ?lats = "\<lparr>lat_keys = [0, 1, 2, 3, 4, 5, 6, 7, 8, 9 :: nat],
         lat_vals = [0, 10, 20, 30, 40, 50, 60, 70, 80, 5]\<rparr>"
  let ?row = "\<lparr>cor = Fin 1, n_bins_obs = 1, prev = 1, oid = ''otu1'', n_obs = 10\<rparr>"
  have tab: "cor_table ?corf ?otu ?lats = Inr [?row]"
    by (simp add: cor_table_def make_indmap_def getindex_def setindex_def
        fast_cor_binned_def all_iszero_def iszero_def groupby_mean_def populate_caches_def
        add_to_group_def broadcast_div_def bcast_def of_Int_def count_nonzero_def
        log_means_block_def Let_def)
  have run: "compute_latitudinal_abundance_cors ?corf (\<lambda>c n k. Fin (1 / 2)) (\<lambda>ps. ps)
      ?otu ?lats 1 (- 1) False =
      Inr ([\<lparr>cor = Fin 1, n_bins_obs = 1, prev = 1, oid = ''otu1'', n_obs = 10,
            pval = Fin (1 / 2), pval_adj = None\<rparr>], [])"
    unfolding compute_latitudinal_abundance_cors_def tab
    by (simp add: n_bins_obs_min_def filt_mask_def with_pvals_def)
  show ?thesis
    using run default_factor_disables_bin_filter [OF run tab, of 10] by simp
qed

end
